theory Spec2Isabelle
  imports Main "HOL-Library.Sublist"
begin

section \<open>Values, notes and the environment\<close>

text \<open>
  The formatter of \<^verbatim>\<open>extract_openreview_comments/formatter.py\<close> works on OpenReview
  notes whose \<^verbatim>\<open>content\<close> holds loosely typed JSON values. A content value is a
  \<open>pyval\<close>; Python's unbounded \<^verbatim>\<open>int\<close> is \<open>int\<close>, \<^verbatim>\<open>str\<close> is \<open>string\<close> (read as
  UTF-8 bytes), a \<^verbatim>\<open>dict\<close> with string keys is an association list read with
  \<open>map_of\<close>. Python floats are left out of the value type: their \<^verbatim>\<open>str()\<close> text is a
  floating-point algorithm.
\<close>

datatype pyval =
    PNone
  | PBool bool
  | PInt int
  | PStr string
  | PList "pyval list"
  | PDict "(string \<times> pyval) list"

text \<open>
  A note has the attributes of \<^verbatim>\<open>openreview.api.Note\<close> that the formatter reads, each
  \<open>None\<close> when the attribute (or dict key) is missing or holds Python's \<^verbatim>\<open>None\<close>:
  \<^verbatim>\<open>_get_attr\<close> answers a dict (\<^verbatim>\<open>note.get(attr, None)\<close>) and an object
  (\<^verbatim>\<open>getattr(note, attr, None)\<close>) alike, so one constructor serves both shapes.
  \<open>details\<close> is the list under \<^verbatim>\<open>details["directReplies"]\<close>; it is \<open>None\<close> when
  \<^verbatim>\<open>details\<close> is missing, \<^verbatim>\<open>None\<close>, empty or has no such key (lines 90-93 treat all
  of these alike).
\<close>

datatype pynote = Note
  (note_id: "string option")
  (signatures: "string list option")
  (cdate: "int option")
  (replyto: "string option")
  (content: "(string \<times> pyval) list option")
  (details: "pynote list option")

datatype error = AttributeError | ValueError | DateOutOfRange | RecursionError

text \<open>
  What the formatter takes from its surroundings: the named character references of
  \<^verbatim>\<open>html.entities.html5\<close> beyond the nine written out in \<open>html5_core\<close> below, the
  offset of local time from UTC (in seconds, at a given epoch second) that
  \<^verbatim>\<open>datetime.fromtimestamp\<close> applies, Python's \<^verbatim>\<open>repr\<close> of a list or dict, which
  an f-string prints for such a value, and the interpreter's limit on the number of
  digits in a conversion between \<^verbatim>\<open>int\<close> and decimal text
  (\<^verbatim>\<open>sys.get_int_max_str_digits()\<close>: 4300 unless configured, 0 for no limit).
\<close>

record env =
  html5_rest :: "string \<Rightarrow> string option"
  utcoffset :: "int \<Rightarrow> int"
  py_repr :: "pyval \<Rightarrow> string"
  int_max_str_digits :: nat

section \<open>Python strings\<close>

definition NL :: char where
  "NL = CHR 0x0A"

text \<open>\<^verbatim>\<open>sep.join(parts)\<close>\<close>

fun join :: "string \<Rightarrow> string list \<Rightarrow> string" where
  "join sep [] = []"
| "join sep [x] = x"
| "join sep (x # y # ys) = x @ sep @ join sep (y # ys)"

definition join_nl :: "string list \<Rightarrow> string" where
  "join_nl ls = join [NL] ls"

text \<open>\<^verbatim>\<open>s.split("\n")\<close>\<close>

fun split_nl :: "string \<Rightarrow> string list" where
  "split_nl [] = [[]]"
| "split_nl (c # cs) =
     (if c = NL then [] # split_nl cs
      else (case split_nl cs of [] \<Rightarrow> [[c]] | l # ls \<Rightarrow> (c # l) # ls))"

text \<open>\<^verbatim>\<open>s.replace(a, b)\<close> for one-character \<open>a\<close> and \<open>b\<close>\<close>

definition replace_char :: "char \<Rightarrow> char \<Rightarrow> string \<Rightarrow> string" where
  "replace_char a b s = map (\<lambda>c. if c = a then b else c) s"

text \<open>\<^verbatim>\<open>needle in hay\<close> and \<^verbatim>\<open>hay.find(needle)\<close> on strings\<close>

fun contains :: "string \<Rightarrow> string \<Rightarrow> bool" where
  "contains needle [] = (needle = [])"
| "contains needle (c # cs) = (prefix needle (c # cs) \<or> contains needle cs)"

fun find_str :: "string \<Rightarrow> string \<Rightarrow> nat option" where
  "find_str needle [] = (if needle = [] then Some 0 else None)"
| "find_str needle (c # cs) =
     (if prefix needle (c # cs) then Some 0 else map_option Suc (find_str needle cs))"

text \<open>\<^verbatim>\<open>s.title()\<close> on ASCII text: a letter after a letter is lowered, any other is raised.\<close>

definition is_upper :: "char \<Rightarrow> bool" where
  "is_upper c = (65 \<le> (of_char c :: nat) \<and> (of_char c :: nat) \<le> 90)"

definition is_lower :: "char \<Rightarrow> bool" where
  "is_lower c = (97 \<le> (of_char c :: nat) \<and> (of_char c :: nat) \<le> 122)"

definition to_upper :: "char \<Rightarrow> char" where
  "to_upper c = (if is_lower c then char_of ((of_char c :: nat) - 32) else c)"

definition to_lower :: "char \<Rightarrow> char" where
  "to_lower c = (if is_upper c then char_of ((of_char c :: nat) + 32) else c)"

fun title_from :: "bool \<Rightarrow> string \<Rightarrow> string" where
  "title_from prev [] = []"
| "title_from prev (c # cs) =
     (if is_upper c \<or> is_lower c
      then (if prev then to_lower c else to_upper c) # title_from True cs
      else c # title_from False cs)"

definition title :: "string \<Rightarrow> string" where
  "title s = title_from False s"

text \<open>
  The decimal text of an int, and \<^verbatim>\<open>str(n)\<close>: CPython raises \<^verbatim>\<open>ValueError\<close> when
  the text would have more digits (the sign apart) than the limit allows; texts of up
  to 640 digits are never checked.
\<close>

fun str_nat :: "nat \<Rightarrow> string" where
  "str_nat n =
     (if n < 10 then [char_of (48 + n)]
      else str_nat (n div 10) @ [char_of (48 + n mod 10)])"

declare str_nat.simps [simp del]

definition decimal :: "int \<Rightarrow> string" where
  "decimal i = (if i < 0 then CHR ''-'' # str_nat (nat (- i)) else str_nat (nat i))"

definition exceeds_limit :: "env \<Rightarrow> nat \<Rightarrow> bool" where
  "exceeds_limit env digits =
     (0 < int_max_str_digits env \<and> 640 < digits \<and> int_max_str_digits env < digits)"

definition str_int :: "env \<Rightarrow> int \<Rightarrow> error + string" where
  "str_int env i =
     (if exceeds_limit env (length (str_nat (nat \<bar>i\<bar>))) then Inl ValueError
      else Inr (decimal i))"

text \<open>Truthiness, and the text an f-string prints for a value.\<close>

fun truthy :: "pyval \<Rightarrow> bool" where
  "truthy PNone = False"
| "truthy (PBool b) = b"
| "truthy (PInt i) = (i \<noteq> 0)"
| "truthy (PStr s) = (s \<noteq> [])"
| "truthy (PList l) = (l \<noteq> [])"
| "truthy (PDict d) = (d \<noteq> [])"

fun py_str :: "env \<Rightarrow> pyval \<Rightarrow> error + string" where
  "py_str env PNone = Inr ''None''"
| "py_str env (PBool b) = Inr (if b then ''True'' else ''False'')"
| "py_str env (PInt i) = str_int env i"
| "py_str env (PStr s) = Inr s"
| "py_str env v = Inr (py_repr env v)"

section \<open>\<^verbatim>\<open>html.unescape\<close>\<close>

text \<open>
  The standard library's \<^verbatim>\<open>html.unescape\<close> replaces, in one pass from the left, every
  match of
  \<^verbatim>\<open>&(#[0-9]+;?|#[xX][0-9a-fA-F]+;?|[^\t\n\f <&#;]{1,32};?)\<close>
  by what \<^verbatim>\<open>_replace_charref\<close> makes of the group. Code points are written as UTF-8.
\<close>

definition utf8 :: "nat \<Rightarrow> string" where
  "utf8 n =
     (if n < 0x80 then [char_of n]
      else if n < 0x800 then [char_of (0xC0 + n div 64), char_of (0x80 + n mod 64)]
      else if n < 0x10000 then
        [char_of (0xE0 + n div 4096), char_of (0x80 + (n div 64) mod 64),
         char_of (0x80 + n mod 64)]
      else
        [char_of (0xF0 + n div 262144), char_of (0x80 + (n div 4096) mod 64),
         char_of (0x80 + (n div 64) mod 64), char_of (0x80 + n mod 64)])"

definition html5_core :: "(string \<times> string) list" where
  "html5_core =
     [(''amp;'', ''&''), (''amp'', ''&''),
      (''lt;'', ''<''), (''lt'', ''<''),
      (''gt;'', ''>''), (''gt'', ''>''),
      (''quot;'', [CHR 0x22]), (''quot'', [CHR 0x22]),
      (''apos;'', [CHR 0x27])]"

definition html5 :: "env \<Rightarrow> string \<Rightarrow> string option" where
  "html5 env name =
     (case map_of html5_core name of Some v \<Rightarrow> Some v | None \<Rightarrow> html5_rest env name)"

definition invalid_charrefs :: "(nat \<times> nat) list" where
  "invalid_charrefs =
     [(0x0, 0xFFFD), (0xD, 0xD), (0x80, 0x20AC), (0x81, 0x81), (0x82, 0x201A),
      (0x83, 0x192), (0x84, 0x201E), (0x85, 0x2026), (0x86, 0x2020), (0x87, 0x2021),
      (0x88, 0x2C6), (0x89, 0x2030), (0x8A, 0x160), (0x8B, 0x2039), (0x8C, 0x152),
      (0x8D, 0x8D), (0x8E, 0x17D), (0x8F, 0x8F), (0x90, 0x90), (0x91, 0x2018),
      (0x92, 0x2019), (0x93, 0x201C), (0x94, 0x201D), (0x95, 0x2022), (0x96, 0x2013),
      (0x97, 0x2014), (0x98, 0x2DC), (0x99, 0x2122), (0x9A, 0x161), (0x9B, 0x203A),
      (0x9C, 0x153), (0x9D, 0x9D), (0x9E, 0x17E), (0x9F, 0x178)]"

definition invalid_codepoint :: "nat \<Rightarrow> bool" where
  "invalid_codepoint n =
     ((1 \<le> n \<and> n \<le> 8) \<or> (0xE \<le> n \<and> n \<le> 0x1F) \<or> (0x7F \<le> n \<and> n \<le> 0x9F)
      \<or> (0xFDD0 \<le> n \<and> n \<le> 0xFDEF) \<or> n = 0xB
      \<or> (n \<le> 0x10FFFF \<and> (n mod 0x10000 = 0xFFFE \<or> n mod 0x10000 = 0xFFFF)))"

definition is_digit :: "char \<Rightarrow> bool" where
  "is_digit c = (48 \<le> (of_char c :: nat) \<and> (of_char c :: nat) \<le> 57)"

definition is_hex :: "char \<Rightarrow> bool" where
  "is_hex c =
     (is_digit c \<or> (65 \<le> (of_char c :: nat) \<and> (of_char c :: nat) \<le> 70)
      \<or> (97 \<le> (of_char c :: nat) \<and> (of_char c :: nat) \<le> 102))"

definition hex_val :: "char \<Rightarrow> nat" where
  "hex_val c =
     (if is_digit c then (of_char c :: nat) - 48
      else if is_upper c then (of_char c :: nat) - 55
      else (of_char c :: nat) - 87)"

definition int_of_digits :: "nat \<Rightarrow> string \<Rightarrow> nat" where
  "int_of_digits base ds = foldl (\<lambda>a d. a * base + hex_val d) 0 ds"

text \<open>
  \<^verbatim>\<open>int(ds)\<close> and \<^verbatim>\<open>int(ds, 16)\<close> on a run of digits. The digit limit applies to
  base 10 only (leading zeros count), and raises \<^verbatim>\<open>ValueError\<close>.
\<close>

definition py_int :: "env \<Rightarrow> nat \<Rightarrow> string \<Rightarrow> error + nat" where
  "py_int env base ds =
     (if base = 10 \<and> exceeds_limit env (length ds) then Inl ValueError
      else Inr (int_of_digits base ds))"

definition name_char :: "char \<Rightarrow> bool" where
  "name_char c =
     (c \<noteq> CHR 0x09 \<and> c \<noteq> NL \<and> c \<noteq> CHR 0x0C \<and> c \<noteq> CHR '' ''
      \<and> c \<noteq> CHR ''<'' \<and> c \<noteq> CHR ''&'' \<and> c \<noteq> CHR ''#'' \<and> c \<noteq> CHR '';'')"

definition opt_semi :: "string \<Rightarrow> string" where
  "opt_semi rest = (case rest of c # _ \<Rightarrow> if c = CHR '';'' then '';'' else [] | [] \<Rightarrow> [])"

text \<open>
  The group that \<^verbatim>\<open>_charref\<close> matches right after an ampersand, if any. The three
  alternatives are tried in the order of the pattern; each is greedy and nothing follows
  the group, so the first alternative that matches decides.
\<close>

definition match_charref :: "string \<Rightarrow> string option" where
  "match_charref cs =
     (case cs of
        [] \<Rightarrow> None
      | c # r \<Rightarrow>
          if c = CHR ''#'' then
            (let ds = takeWhile is_digit r in
             if ds \<noteq> [] then Some (c # ds @ opt_semi (drop (length ds) r))
             else (case r of
                     [] \<Rightarrow> None
                   | x # r' \<Rightarrow>
                       if x = CHR ''x'' \<or> x = CHR ''X'' then
                         (let hs = takeWhile is_hex r' in
                          if hs \<noteq> [] then Some (c # x # hs @ opt_semi (drop (length hs) r'))
                          else None)
                       else None))
          else
            (let nm = take 32 (takeWhile name_char cs) in
             if nm \<noteq> [] then Some (nm @ opt_semi (drop (length nm) cs)) else None))"

definition rstrip_semi :: "string \<Rightarrow> string" where
  "rstrip_semi s = rev (dropWhile (\<lambda>c. c = CHR '';'') (rev s))"

text \<open>\<^verbatim>\<open>for x in range(len(s)-1, 1, -1): if s[:x] in _html5: return _html5[s[:x]] + s[x:]\<close>\<close>

fun prefix_search :: "env \<Rightarrow> string \<Rightarrow> nat \<Rightarrow> string option" where
  "prefix_search env s x =
     (if x \<le> 1 then None
      else (case html5 env (take x s) of
              Some v \<Rightarrow> Some (v @ drop x s)
            | None \<Rightarrow> prefix_search env s (x - 1)))"

declare prefix_search.simps [simp del]

definition numeric_charref :: "nat \<Rightarrow> string" where
  "numeric_charref num =
     (case map_of invalid_charrefs num of
        Some v \<Rightarrow> utf8 v
      | None \<Rightarrow>
          if (0xD800 \<le> num \<and> num \<le> 0xDFFF) \<or> num > 0x10FFFF then utf8 0xFFFD
          else if invalid_codepoint num then []
          else utf8 num)"

fun replace_charref :: "env \<Rightarrow> string \<Rightarrow> error + string" where
  "replace_charref env [] = Inr ''&''"
| "replace_charref env (c # r) =
     (if c = CHR ''#'' then
        (case r of
           [] \<Rightarrow> Inr ''&#''
         | x # r' \<Rightarrow>
             (case (if x = CHR ''x'' \<or> x = CHR ''X''
                    then py_int env 16 (rstrip_semi r')
                    else py_int env 10 (rstrip_semi r)) of
                Inl e \<Rightarrow> Inl e
              | Inr num \<Rightarrow> Inr (numeric_charref num)))
      else
        (case html5 env (c # r) of
           Some v \<Rightarrow> Inr v
         | None \<Rightarrow>
             (case prefix_search env (c # r) (length (c # r) - 1) of
                Some v \<Rightarrow> Inr v
              | None \<Rightarrow> Inr (CHR ''&'' # c # r))))"

text \<open>
  \<^verbatim>\<open>_charref.sub(_replace_charref, s)\<close>: the matches are replaced from the left, and
  the first replacement that raises ends the call.
\<close>

function charref_sub :: "env \<Rightarrow> string \<Rightarrow> error + string" where
  "charref_sub env [] = Inr []"
| "charref_sub env (c # cs) =
     (if c = CHR ''&'' then
        (case match_charref cs of
           Some g \<Rightarrow>
             (case replace_charref env g of
                Inl e \<Rightarrow> Inl e
              | Inr r \<Rightarrow>
                  (case charref_sub env (drop (length g) cs) of
                     Inl e \<Rightarrow> Inl e
                   | Inr rest \<Rightarrow> Inr (r @ rest)))
         | None \<Rightarrow>
             (case charref_sub env cs of
                Inl e \<Rightarrow> Inl e
              | Inr rest \<Rightarrow> Inr (c # rest)))
      else
        (case charref_sub env cs of
           Inl e \<Rightarrow> Inl e
         | Inr rest \<Rightarrow> Inr (c # rest)))"
  by pat_completeness auto
termination
  by (relation "measure (\<lambda>(env, s). length s)") auto

definition unescape :: "env \<Rightarrow> string \<Rightarrow> error + string" where
  "unescape env s = (if CHR ''&'' \<notin> set s then Inr s else charref_sub env s)"

section \<open>The field extractor\<close>

text \<open>
  \<^verbatim>\<open>_extract_value\<close> (lines 107-129). \<^verbatim>\<open>isinstance(field, (int, float))\<close> holds of a
  \<^verbatim>\<open>bool\<close> too, and \<^verbatim>\<open>field.get("value")\<close> is returned as it is unless it is a
  non-empty string, so the result is a \<open>pyval\<close>. \<^verbatim>\<open>str(field)\<close> and
  \<^verbatim>\<open>html.unescape(value)\<close> may raise \<^verbatim>\<open>ValueError\<close>.
\<close>

definition dict_get :: "(string \<times> pyval) list \<Rightarrow> string \<Rightarrow> pyval" where
  "dict_get d k = (case map_of d k of Some v \<Rightarrow> v | None \<Rightarrow> PNone)"

definition extract_value :: "env \<Rightarrow> pyval \<Rightarrow> error + pyval" where
  "extract_value env field =
     (case (case field of
              PDict d \<Rightarrow> Inr (dict_get d ''value'')
            | PStr s \<Rightarrow> Inr (PStr s)
            | PInt i \<Rightarrow> (case str_int env i of Inl e \<Rightarrow> Inl e | Inr s \<Rightarrow> Inr (PStr s))
            | PBool b \<Rightarrow> Inr (PStr (if b then ''True'' else ''False''))
            | _ \<Rightarrow> Inr PNone) of
        Inl e \<Rightarrow> Inl e
      | Inr v \<Rightarrow>
          (case v of
             PStr s \<Rightarrow>
               if s \<noteq> [] then
                 (case unescape env s of Inl e \<Rightarrow> Inl e | Inr u \<Rightarrow> Inr (PStr u))
               else Inr v
           | _ \<Rightarrow> Inr v))"

section \<open>Dates\<close>

text \<open>
  \<^verbatim>\<open>datetime.fromtimestamp(cdate / 1000)\<close> for an int \<^verbatim>\<open>cdate\<close>: the seconds are
  \<open>cdate div 1000\<close> (the fraction only fills the microseconds, which no format used here
  prints), local time is UTC plus the offset, and the date is the proleptic Gregorian one.
  CPython raises \<^verbatim>\<open>ValueError\<close> when the local year, or the local year of one of the
  instants it probes to detect a repeated hour (a day earlier, and the instant shifted by
  the change of offset over that day), falls outside 1..9999; beyond the platform's
  \<^verbatim>\<open>time_t\<close> it raises \<^verbatim>\<open>OverflowError\<close> or \<^verbatim>\<open>OSError\<close> instead. All of these are
  \<open>DateOutOfRange\<close>.
\<close>

text \<open>
  The calendar arithmetic is that of the standard library's \<^verbatim>\<open>_ord2ymd\<close>: day 1 is
  1 January of year 1, so 1 January 1970 is day 719163. The month tables are only read at
  the months 1 to 12.
\<close>

definition days_in_month_tab :: "int list" where
  "days_in_month_tab = [-1, 31, 28, 31, 30, 31, 30, 31, 31, 30, 31, 30, 31]"

definition days_before_month_tab :: "int list" where
  "days_before_month_tab = [-1, 0, 31, 59, 90, 120, 151, 181, 212, 243, 273, 304, 334]"

definition month_day :: "bool \<Rightarrow> int \<Rightarrow> int \<times> int" where
  "month_day leapyear n =
     (let month = (n + 50) div 32;
          preceding = days_before_month_tab ! nat month
                      + (if month > 2 \<and> leapyear then 1 else 0)
      in if preceding > n then
           (let month' = month - 1;
                preceding' = preceding - (days_in_month_tab ! nat month'
                                          + (if month' = 2 \<and> leapyear then 1 else 0))
            in (month', n - preceding' + 1))
         else (month, n - preceding + 1))"

definition ord2ymd :: "int \<Rightarrow> int \<times> int \<times> int" where
  "ord2ymd ordinal =
     (let n = ordinal - 1;
          n400 = n div 146097; r400 = n mod 146097;
          n100 = r400 div 36524; r100 = r400 mod 36524;
          n4 = r100 div 1461; r4 = r100 mod 1461;
          n1 = r4 div 365; r1 = r4 mod 365;
          year = n400 * 400 + 1 + n100 * 100 + n4 * 4 + n1
      in if n1 = 4 \<or> n100 = 4 then (year - 1, 12, 31)
         else (let (month, day) = month_day (n1 = 3 \<and> (n4 \<noteq> 24 \<or> n100 = 3)) r1
               in (year, month, day)))"

definition civil_from_days :: "int \<Rightarrow> int \<times> int \<times> int" where
  "civil_from_days days = ord2ymd (days + 719163)"

definition local_time :: "env \<Rightarrow> int \<Rightarrow> int" where
  "local_time env t = t + utcoffset env t"

definition year_ok :: "int \<Rightarrow> bool" where
  "year_ok s = (let y = fst (civil_from_days (s div 86400)) in 1 \<le> y \<and> y \<le> 9999)"

definition fromtimestamp :: "env \<Rightarrow> int \<Rightarrow> error + int" where
  "fromtimestamp env cd =
     (let t = cd div 1000; r = local_time env t in
      if \<not> year_ok r then Inl DateOutOfRange
      else
        (let p = local_time env (t - 86400) in
         if \<not> year_ok p then Inl DateOutOfRange
         else
           (let transition = r - p - 86400 in
            if transition < 0 \<and> \<not> year_ok (local_time env (t + transition))
            then Inl DateOutOfRange
            else Inr r)))"

definition pad2 :: "int \<Rightarrow> string" where
  "pad2 n = (if n < 10 then ''0'' @ decimal n else decimal n)"

text \<open>
  \<^verbatim>\<open>strftime("%Y-%m-%d %H:%M:%S")\<close> and \<^verbatim>\<open>strftime("%Y%m%d")\<close> of the local second
  count \<open>s\<close>. \<^verbatim>\<open>%Y\<close> is the year as glibc prints it, without padding.
\<close>

definition strftime_datetime :: "int \<Rightarrow> string" where
  "strftime_datetime s =
     (let (y, m, d) = civil_from_days (s div 86400); sod = s mod 86400 in
      decimal y @ ''-'' @ pad2 m @ ''-'' @ pad2 d @ '' '' @
      pad2 (sod div 3600) @ '':'' @ pad2 (sod mod 3600 div 60) @ '':'' @ pad2 (sod mod 60))"

definition strftime_date :: "int \<Rightarrow> string" where
  "strftime_date s =
     (let (y, m, d) = civil_from_days (s div 86400) in decimal y @ pad2 m @ pad2 d)"

section \<open>Rendering one note\<close>

text \<open>
  Lines 34-87 of \<^verbatim>\<open>format_note\<close> and lines 172-225 of \<^verbatim>\<open>_format_note_recursive\<close> are
  the same statements; \<open>note_lines\<close> is that common part, the list \<^verbatim>\<open>markdown_lines\<close>
  as it stands before the replies are added.
\<close>

definition indent_of :: "int \<Rightarrow> string" where
  "indent_of level = concat (replicate (nat level) ''  '')"

definition signatures_str :: "pynote \<Rightarrow> string" where
  "signatures_str n =
     (case signatures n of
        None \<Rightarrow> ''Anonymous''
      | Some sigs \<Rightarrow> if sigs \<noteq> [] then join '', '' sigs else ''Anonymous'')"

definition date_str :: "env \<Rightarrow> pynote \<Rightarrow> error + string" where
  "date_str env n =
     (case cdate n of
        None \<Rightarrow> Inr ''Unknown date''
      | Some cd \<Rightarrow>
          if cd \<noteq> 0
          then (case fromtimestamp env cd of
                  Inl e \<Rightarrow> Inl e
                | Inr s \<Rightarrow> Inr (strftime_datetime s))
          else Inr ''Unknown date'')"

text \<open>
  Lines 55-59. Extraction and the f-string may raise \<^verbatim>\<open>ValueError\<close> (a number beyond
  the digit limit).
\<close>

definition title_lines ::
  "env \<Rightarrow> (string \<times> pyval) list \<Rightarrow> int \<Rightarrow> error + string list" where
  "title_lines env c level =
     (case map_of c ''title'' of
        None \<Rightarrow> Inr []
      | Some field \<Rightarrow>
          if level > 0 then
            (case extract_value env field of
               Inl e \<Rightarrow> Inl e
             | Inr title_value \<Rightarrow>
                 if truthy title_value then
                   (case py_str env title_value of
                      Inl e \<Rightarrow> Inl e
                    | Inr shown \<Rightarrow> Inr [indent_of level @ ''**Title:** '' @ shown, []])
                 else Inr [])
          else Inr [])"

text \<open>
  The loop over \<^verbatim>\<open>["comment", "review", "summary", "response"]\<close>. A truthy value that
  is not a string has no \<^verbatim>\<open>split\<close>: line 69 raises \<^verbatim>\<open>AttributeError\<close>.
\<close>

fun main_field_lines ::
  "env \<Rightarrow> (string \<times> pyval) list \<Rightarrow> int \<Rightarrow> string list \<Rightarrow> error + string list" where
  "main_field_lines env c level [] = Inr []"
| "main_field_lines env c level (field_name # rest) =
     (case (case map_of c field_name of
              None \<Rightarrow> Inr []
            | Some field \<Rightarrow>
                (case extract_value env field of
                   Inl e \<Rightarrow> Inl e
                 | Inr field_value \<Rightarrow>
                     if truthy field_value then
                       (case field_value of
                          PStr s \<Rightarrow>
                            Inr ([indent_of level @ ''**'' @ title field_name @ '':**'', []]
                                 @ map (\<lambda>line. indent_of level @ line) (split_nl s) @ [[]])
                        | _ \<Rightarrow> Inl AttributeError)
                     else Inr [])) of
        Inl e \<Rightarrow> Inl e
      | Inr ls \<Rightarrow>
          (case main_field_lines env c level rest of
             Inl e \<Rightarrow> Inl e
           | Inr ls' \<Rightarrow> Inr (ls @ ls')))"

text \<open>The loop over \<^verbatim>\<open>["rating", "confidence", "strengths", "weaknesses", "questions"]\<close>.\<close>

fun other_field_lines ::
  "env \<Rightarrow> (string \<times> pyval) list \<Rightarrow> int \<Rightarrow> string list \<Rightarrow> error + string list" where
  "other_field_lines env c level [] = Inr []"
| "other_field_lines env c level (field_name # rest) =
     (case (case map_of c field_name of
              None \<Rightarrow> Inr []
            | Some field \<Rightarrow>
                (case extract_value env field of
                   Inl e \<Rightarrow> Inl e
                 | Inr field_value \<Rightarrow>
                     if truthy field_value then
                       (case py_str env field_value of
                          Inl e \<Rightarrow> Inl e
                        | Inr shown \<Rightarrow>
                            Inr [indent_of level @ ''**''
                                 @ title (replace_char CHR ''_'' CHR '' '' field_name)
                                 @ '':** '' @ shown, []])
                     else Inr [])) of
        Inl e \<Rightarrow> Inl e
      | Inr ls \<Rightarrow>
          (case other_field_lines env c level rest of
             Inl e \<Rightarrow> Inl e
           | Inr ls' \<Rightarrow> Inr (ls @ ls')))"

definition content_lines :: "env \<Rightarrow> pynote \<Rightarrow> int \<Rightarrow> error + string list" where
  "content_lines env n level =
     (case content n of
        None \<Rightarrow> Inr []
      | Some c \<Rightarrow>
          if c \<noteq> [] then
            (case title_lines env c level of
               Inl e \<Rightarrow> Inl e
             | Inr tls \<Rightarrow>
                 (case main_field_lines env c level
                         [''comment'', ''review'', ''summary'', ''response''] of
                    Inl e \<Rightarrow> Inl e
                  | Inr mls \<Rightarrow>
                      (case other_field_lines env c level
                              [''rating'', ''confidence'', ''strengths'', ''weaknesses'',
                               ''questions''] of
                         Inl e \<Rightarrow> Inl e
                       | Inr ols \<Rightarrow> Inr (tls @ mls @ ols))))
          else Inr [])"

definition note_lines :: "env \<Rightarrow> pynote \<Rightarrow> int \<Rightarrow> error + string list" where
  "note_lines env n level =
     (case date_str env n of
        Inl e \<Rightarrow> Inl e
      | Inr d \<Rightarrow>
          (case content_lines env n level of
             Inl e \<Rightarrow> Inl e
           | Inr ls \<Rightarrow>
               Inr ([indent_of level @ ''## Comment by '' @ signatures_str n,
                     indent_of level @ ''**Date:** '' @ d,
                     []] @ ls)))"

text \<open>A \<^verbatim>\<open>for\<close> loop whose body may raise stops at the first exception.\<close>

fun collect :: "(error + 'a) list \<Rightarrow> error + 'a list" where
  "collect [] = Inr []"
| "collect (Inl e # rs) = Inl e"
| "collect (Inr x # rs) = (case collect rs of Inl e \<Rightarrow> Inl e | Inr xs \<Rightarrow> Inr (x # xs))"

definition replies_block :: "int \<Rightarrow> string list \<Rightarrow> string list" where
  "replies_block level rendered = [indent_of level @ ''### Replies:'', []] @ rendered"

text \<open>
  \<^verbatim>\<open>format_note\<close> (lines 20-105). The recursion follows the notes nested under
  \<^verbatim>\<open>details["directReplies"]\<close>.
\<close>

fun format_note :: "env \<Rightarrow> pynote \<Rightarrow> bool \<Rightarrow> int \<Rightarrow> error + string" where
  "format_note env (Note i sg cd rt ct dt) include_replies level =
     (case note_lines env (Note i sg cd rt ct dt) level of
        Inl e \<Rightarrow> Inl e
      | Inr ls \<Rightarrow>
          (case (case dt of
                   None \<Rightarrow> Inr []
                 | Some replies \<Rightarrow>
                     if include_replies \<and> replies \<noteq> [] then
                       (case collect
                               (map (\<lambda>reply. format_note env reply True (level + 1)) replies) of
                          Inl e \<Rightarrow> Inl e
                        | Inr rendered \<Rightarrow> Inr (replies_block level rendered))
                     else Inr []) of
             Inl e \<Rightarrow> Inl e
           | Inr rb \<Rightarrow> Inr (join_nl (ls @ rb @ [indent_of level @ ''---'', []]))))"

section \<open>The reply index and the whole thread\<close>

text \<open>
  The sort key \<^verbatim>\<open>n.cdate if n.cdate else 0\<close>, and the test \<^verbatim>\<open>if replyto\<close> /
  \<^verbatim>\<open>not note.replyto\<close>. Python's \<^verbatim>\<open>sort\<close> and \<^verbatim>\<open>sorted\<close> are stable, as \<open>sort_key\<close> is.
\<close>

definition cdate_key :: "pynote \<Rightarrow> int" where
  "cdate_key n = (case cdate n of None \<Rightarrow> 0 | Some cd \<Rightarrow> if cd \<noteq> 0 then cd else 0)"

definition has_replyto :: "pynote \<Rightarrow> bool" where
  "has_replyto n = (case replyto n of None \<Rightarrow> False | Some r \<Rightarrow> r \<noteq> [])"

text \<open>\<^verbatim>\<open>_build_children_map\<close> (lines 131-154): the dict is a map from parent id to children.\<close>

definition add_child :: "(string \<rightharpoonup> pynote list) \<Rightarrow> pynote \<Rightarrow> (string \<rightharpoonup> pynote list)" where
  "add_child children_map n =
     (case replyto n of
        None \<Rightarrow> children_map
      | Some r \<Rightarrow>
          if r \<noteq> []
          then children_map(r \<mapsto> (case children_map r of None \<Rightarrow> [] | Some v \<Rightarrow> v) @ [n])
          else children_map)"

definition build_children_map :: "pynote list \<Rightarrow> (string \<rightharpoonup> pynote list)" where
  "build_children_map notes =
     (\<lambda>parent_id. map_option (sort_key cdate_key) (foldl add_child Map.empty notes parent_id))"

text \<open>\<^verbatim>\<open>children_map.get(note_id, []) if note_id else []\<close>\<close>

definition children_get :: "(string \<rightharpoonup> pynote list) \<Rightarrow> string option \<Rightarrow> pynote list" where
  "children_get children_map i =
     (case i of
        None \<Rightarrow> []
      | Some k \<Rightarrow> if k \<noteq> [] then (case children_map k of None \<Rightarrow> [] | Some v \<Rightarrow> v) else [])"

text \<open>
  \<^verbatim>\<open>_format_note_recursive\<close> (lines 156-243). The recursion follows the reply index,
  which may lead back to a note already entered; CPython then raises
  \<^verbatim>\<open>RecursionError\<close> once the nesting passes the interpreter's limit. \<open>frames\<close> is
  the number of nested calls still allowed.
\<close>

fun format_note_recursive ::
  "nat \<Rightarrow> env \<Rightarrow> (string \<rightharpoonup> pynote list) \<Rightarrow> pynote \<Rightarrow> int \<Rightarrow> error + string" where
  "format_note_recursive 0 env children_map n level = Inl RecursionError"
| "format_note_recursive (Suc frames) env children_map n level =
     (case note_lines env n level of
        Inl e \<Rightarrow> Inl e
      | Inr ls \<Rightarrow>
          (let replies = children_get children_map (note_id n) in
           case (if replies \<noteq> [] then
                   (case collect
                           (map (\<lambda>reply. format_note_recursive frames env children_map reply
                                            (level + 1)) replies) of
                      Inl e \<Rightarrow> Inl e
                    | Inr rendered \<Rightarrow> Inr (replies_block level rendered))
                 else Inr []) of
             Inl e \<Rightarrow> Inl e
           | Inr rb \<Rightarrow> Inr (join_nl (ls @ rb @ [indent_of level @ ''---'', []]))))"

text \<open>
  \<^verbatim>\<open>format_all_notes\<close> (lines 245-303). The length of a list has far fewer digits
  than any digit limit, so the count line is its plain decimal text.
\<close>

definition header_lines :: "string \<Rightarrow> nat \<Rightarrow> string list" where
  "header_lines submission_title count =
     [''# '' @ submission_title, [],
      ''**Total Comments:** '' @ decimal (int count), [],
      ''---'', []]"

definition main_submission :: "pynote list \<Rightarrow> pynote option" where
  "main_submission sorted_notes = find (\<lambda>n. \<not> has_replyto n) sorted_notes"

definition format_all_notes :: "nat \<Rightarrow> env \<Rightarrow> pynote list \<Rightarrow> string \<Rightarrow> error + string" where
  "format_all_notes frames env notes submission_title =
     (let sorted_notes = sort_key cdate_key notes;
          children_map = build_children_map sorted_notes
      in
      case (case main_submission sorted_notes of
              None \<Rightarrow> Inr []
            | Some m \<Rightarrow>
                (case format_note env m False 0 of
                   Inl e \<Rightarrow> Inl e
                 | Inr md \<Rightarrow> Inr [''# Main Submission'', [], md, []])) of
        Inl e \<Rightarrow> Inl e
      | Inr main_lines \<Rightarrow>
          (let top_level_comments =
                 (case main_submission sorted_notes of
                    None \<Rightarrow> []
                  | Some m \<Rightarrow> children_get children_map (note_id m))
           in
           case collect
                  (map (\<lambda>n. format_note_recursive frames env children_map n 0)
                     top_level_comments) of
             Inl e \<Rightarrow> Inl e
           | Inr rendered \<Rightarrow>
               Inr (join_nl (header_lines submission_title (length notes) @ main_lines
                             @ [''# Comments and Reviews'', []] @ rendered))))"

text \<open>\<^verbatim>\<open>format_note_to_file\<close> (lines 305-335)\<close>

definition file_date_str :: "env \<Rightarrow> pynote \<Rightarrow> error + string" where
  "file_date_str env n =
     (case cdate n of
        None \<Rightarrow> Inr ''unknown''
      | Some cd \<Rightarrow>
          if cd \<noteq> 0
          then (case fromtimestamp env cd of
                  Inl e \<Rightarrow> Inl e
                | Inr s \<Rightarrow> Inr (strftime_date s))
          else Inr ''unknown'')"

definition format_note_to_file :: "env \<Rightarrow> pynote \<Rightarrow> string \<Rightarrow> error + string \<times> string" where
  "format_note_to_file env n filename =
     (case file_date_str env n of
        Inl e \<Rightarrow> Inl e
      | Inr d \<Rightarrow>
          (let safe_filename =
                 d @ ''_''
                 @ replace_char CHR '' '' CHR ''_''
                     (replace_char CHR ''/'' CHR ''_'' (signatures_str n))
                 @ ''.md''
           in
           case format_note env n True 0 of
             Inl e \<Rightarrow> Inl e
           | Inr markdown \<Rightarrow> Inr (markdown, safe_filename)))"

text \<open>
  An environment for concrete runs: local time is UTC, the table of named references has
  no entry beyond \<open>html5_core\<close>, the text of a container is left empty, and the digit
  limit is CPython's default.
\<close>

definition utc_env :: env where
  "utc_env = \<lparr>html5_rest = (\<lambda>_. None), utcoffset = (\<lambda>_. 0), py_repr = (\<lambda>_. []),
               int_max_str_digits = 4300\<rparr>"


section \<open>Notions of the specification\<close>



text \<open>
  The Gregorian calendar, stated without the conversion algorithm: leap years, the
  length of a month, and what it means for a year, month and day to be the date of a day
  counted from 1 January 1970.
\<close>

definition is_leap :: "int \<Rightarrow> bool" where
  "is_leap y = (y mod 4 = 0 \<and> (y mod 100 \<noteq> 0 \<or> y mod 400 = 0))"

definition days_in_month :: "int \<Rightarrow> int \<Rightarrow> int" where
  "days_in_month y m =
     (if m = 2 then (if is_leap y then 29 else 28)
      else if m = 4 \<or> m = 6 \<or> m = 9 \<or> m = 11 then 30
      else 31)"

definition days_before_year :: "int \<Rightarrow> int" where
  "days_before_year y = 365 * (y - 1) + (y - 1) div 4 - (y - 1) div 100 + (y - 1) div 400"

definition days_before_month :: "int \<Rightarrow> int \<Rightarrow> int" where
  "days_before_month y m =
     sum_list (map (days_in_month y)
                 (filter (\<lambda>k. k < m) [1, 2, 3, 4, 5, 6, 7, 8, 9, 10, 11, 12]))"

definition is_date_of_day :: "int \<times> int \<times> int \<Rightarrow> int \<Rightarrow> bool" where
  "is_date_of_day ymd day =
     (case ymd of
        (y, m, d) \<Rightarrow>
          1 \<le> m \<and> m \<le> 12 \<and> 1 \<le> d \<and> d \<le> days_in_month y m
          \<and> days_before_year y + days_before_month y m + d = day + 719163)"

text \<open>A number below 100 in two digits and one below 10000 in four.\<close>

definition digit :: "int \<Rightarrow> char" where
  "digit k = char_of (48 + nat k)"

definition digits2 :: "int \<Rightarrow> string" where
  "digits2 k = [digit (k div 10 mod 10), digit (k mod 10)]"

definition digits4 :: "int \<Rightarrow> string" where
  "digits4 k = [digit (k div 1000 mod 10), digit (k div 100 mod 10),
                digit (k div 10 mod 10), digit (k mod 10)]"

text \<open>
  The author text of a note: the signatures in their order, separated by a comma and a
  space, or \<^verbatim>\<open>Anonymous\<close> when there is none; and the same text made safe for a file
  name.
\<close>

fun spec_joined :: "string list \<Rightarrow> string" where
  "spec_joined [] = []"
| "spec_joined (s # ss) = s @ concat (map (\<lambda>t. '', '' @ t) ss)"

definition spec_author :: "pynote \<Rightarrow> string" where
  "spec_author n =
     (case signatures n of
        None \<Rightarrow> ''Anonymous''
      | Some [] \<Rightarrow> ''Anonymous''
      | Some (s # ss) \<Rightarrow> spec_joined (s # ss))"

definition spec_safe :: "string \<Rightarrow> string" where
  "spec_safe s = map (\<lambda>c. if c = CHR ''/'' \<or> c = CHR '' '' then CHR ''_'' else c) s"

text \<open>A note without its inline reply summary (\<^verbatim>\<open>details["directReplies"]\<close>).\<close>

definition without_details :: "pynote \<Rightarrow> pynote" where
  "without_details n = Note (note_id n) (signatures n) (cdate n) (replyto n) (content n) None"

section \<open>Evaluation lemmas\<close>

lemma decimal_0: "decimal 0 = ''0''"
  by code_simp

lemma str_nat_42: "str_nat 42 = ''42''"
  by code_simp

lemma decimal_42: "decimal 42 = ''42''"
  by code_simp




lemma not_exceeds_limit: "k \<le> 640 \<Longrightarrow> \<not> exceeds_limit env k"
  by (simp add: exceeds_limit_def)


lemma str_int_42: "str_int env 42 = Inr ''42''"
  by (simp add: str_int_def not_exceeds_limit str_nat_42 decimal_42)



section \<open>The field extractor: properties\<close>

















text \<open>
  C2. The claim: a wrapped number extracts to its decimal string, a boolean and a
  wrapped list extract to nothing, and the result is always a string or absent. The
  code returns the inner value of a wrapped form untouched unless it is a non-empty
  string, and takes a boolean for a number: the wrapped number 42 comes back as the
  number 42, a wrapped list as that list, and \<^verbatim>\<open>True\<close> as the string \<^verbatim>\<open>"True"\<close>; the raw
  number 42, on the sibling branch, does become \<^verbatim>\<open>"42"\<close>.
\<close>

theorem extract_value_wrapped_number:
  "extract_value env (PDict [(''value'', PInt 42)]) = Inr (PInt 42)
   \<and> extract_value env (PDict [(''value'', PList [PInt 1, PInt 2])])
       = Inr (PList [PInt 1, PInt 2])
   \<and> extract_value env (PBool True) = Inr (PStr ''True'')
   \<and> extract_value env (PInt 42) = Inr (PStr ''42'')"
  by (simp add: extract_value_def dict_get_def unescape_def str_int_42)




section \<open>The whole thread: the empty list\<close>

text \<open>
  C8. The whole-thread render of the empty list is the title line, the count line
  \<^verbatim>\<open>**Total Comments:** 0\<close>, the rule and the heading of the comments; under the default
  title its lines include the title line and the count line, and nothing of it reads
  \<^verbatim>\<open># Main Submission\<close>.
\<close>

theorem format_all_notes_empty:
  "format_all_notes frames env [] submission_title =
     Inr (join_nl [''# '' @ submission_title, [], ''**Total Comments:** 0'', [], ''---'', [],
                   ''# Comments and Reviews'', []])
   \<and> (\<exists>out. format_all_notes frames env [] ''OpenReview Comments'' = Inr out
        \<and> ''# OpenReview Comments'' \<in> set (split_nl out)
        \<and> ''**Total Comments:** 0'' \<in> set (split_nl out)
        \<and> \<not> contains ''# Main Submission'' out)"
proof -
  have e: "format_all_notes frames env [] t =
     Inr (join_nl [''# '' @ t, [], ''**Total Comments:** 0'', [], ''---'', [],
                   ''# Comments and Reviews'', []])" for t
    by (simp add: format_all_notes_def main_submission_def header_lines_def decimal_0)
  show ?thesis
    unfolding e by (simp add: join_nl_def NL_def)
qed

section \<open>Malformed content\<close>

text \<open>
  C6. The claim: the rendering operations raise no exception on any input. A note whose
  \<^verbatim>\<open>comment\<close> field is the wrapped number 42 makes \<^verbatim>\<open>_extract_value\<close> return the
  number, and \<^verbatim>\<open>field_value.split\<close> raises \<^verbatim>\<open>AttributeError\<close> in all three operations.
\<close>

theorem format_note_wrapped_number_raises:
  "format_note env
     (Note (Some ''c1'') (Some [''Reviewer'']) None None
        (Some [(''comment'', PDict [(''value'', PInt 42)])]) None) False 0
     = Inl AttributeError
   \<and> format_note_to_file env
     (Note (Some ''c1'') (Some [''Reviewer'']) None None
        (Some [(''comment'', PDict [(''value'', PInt 42)])]) None) []
     = Inl AttributeError
   \<and> format_all_notes frames env
     [Note (Some ''c1'') (Some [''Reviewer'']) None None
        (Some [(''comment'', PDict [(''value'', PInt 42)])]) None] ''OpenReview Comments''
     = Inl AttributeError"
  by (simp add: format_all_notes_def format_note_to_file_def file_date_str_def
      main_submission_def has_replyto_def note_lines_def date_str_def content_lines_def
      title_lines_def extract_value_def dict_get_def)

section \<open>The reply index: properties\<close>

lemma foldl_add_child:
  "foldl add_child m ns k =
     (if k = [] \<or> filter (\<lambda>n. replyto n = Some k) ns = [] then m k
      else Some ((case m k of None \<Rightarrow> [] | Some v \<Rightarrow> v)
                 @ filter (\<lambda>n. replyto n = Some k) ns))"
proof (induction ns arbitrary: m)
  case Nil
  show ?case by simp
next
  case (Cons n ns)
  show ?case
    by (simp add: Cons.IH) (auto simp: add_child_def split: option.splits)
qed

lemma build_children_map_lookup:
  "build_children_map notes k =
     (if k \<noteq> [] \<and> filter (\<lambda>n. replyto n = Some k) notes \<noteq> []
      then Some (sort_key cdate_key (filter (\<lambda>n. replyto n = Some k) notes))
      else None)"
  by (simp add: build_children_map_def foldl_add_child)

lemma children_get_build:
  "children_get (build_children_map notes) (Some k) =
     (if k = [] then [] else sort_key cdate_key (filter (\<lambda>n. replyto n = Some k) notes))"
  by (simp add: children_get_def build_children_map_lookup)

text \<open>
  C5. The reply index maps a parent id to the input notes whose \<^verbatim>\<open>replyto\<close> is that
  id, in input order and then stably sorted by ascending \<^verbatim>\<open>cdate\<close> with a missing
  \<^verbatim>\<open>cdate\<close> counted as 0; an id that no note replies to has no entry, and a note
  without \<^verbatim>\<open>replyto\<close> is in no entry.
\<close>

theorem build_children_map_spec:
  "build_children_map notes k =
     (if k \<noteq> [] \<and> filter (\<lambda>n. replyto n = Some k) notes \<noteq> []
      then Some (sort_key cdate_key (filter (\<lambda>n. replyto n = Some k) notes))
      else None)
   \<and> (build_children_map notes k = Some cs \<longrightarrow>
        sorted (map cdate_key cs)
        \<and> set cs = {n \<in> set notes. replyto n = Some k}
        \<and> length cs = length (filter (\<lambda>n. replyto n = Some k) notes)
        \<and> (\<forall>n \<in> set cs. has_replyto n))
   \<and> cdate_key (Note i sg None rt ct dt) = 0
   \<and> cdate_key (Note i sg (Some t) rt ct dt) = t"
proof -
  have "sorted (map cdate_key cs) \<and> set cs = {n \<in> set notes. replyto n = Some k}
        \<and> length cs = length (filter (\<lambda>n. replyto n = Some k) notes)
        \<and> (\<forall>n \<in> set cs. has_replyto n)"
    if "build_children_map notes k = Some cs"
  proof -
    from that have k: "k \<noteq> []"
      and cs: "cs = sort_key cdate_key (filter (\<lambda>n. replyto n = Some k) notes)"
      by (auto simp: build_children_map_lookup split: if_splits)
    from cs have "set cs = {n \<in> set notes. replyto n = Some k}"
      by auto
    with k cs show ?thesis
      by (auto simp: has_replyto_def)
  qed
  then show ?thesis
    by (simp add: build_children_map_lookup cdate_key_def)
qed

theorem build_children_map_spec_witness:
  "build_children_map
     [Note (Some ''sub_1'') None (Some 1609459200000) None None None,
      Note (Some ''comment_2'') None (Some 1609545600000) (Some ''sub_1'') None None,
      Note (Some ''comment_1'') None None (Some ''sub_1'') None None,
      Note (Some ''reply_1'') None (Some 1609632000000) (Some ''comment_1'') None None]
     ''sub_1''
   = Some [Note (Some ''comment_1'') None None (Some ''sub_1'') None None,
           Note (Some ''comment_2'') None (Some 1609545600000) (Some ''sub_1'') None None]
   \<and> sorted (map cdate_key
        [Note (Some ''comment_1'') None None (Some ''sub_1'') None None,
         Note (Some ''comment_2'') None (Some 1609545600000) (Some ''sub_1'') None None])"
proof -
  let ?notes = "[Note (Some ''sub_1'') None (Some 1609459200000) None None None,
      Note (Some ''comment_2'') None (Some 1609545600000) (Some ''sub_1'') None None,
      Note (Some ''comment_1'') None None (Some ''sub_1'') None None,
      Note (Some ''reply_1'') None (Some 1609632000000) (Some ''comment_1'') None None]"
  let ?cs = "[Note (Some ''comment_1'') None None (Some ''sub_1'') None None,
           Note (Some ''comment_2'') None (Some 1609545600000) (Some ''sub_1'') None None]"
  note spec = build_children_map_spec [of ?notes "''sub_1''" ?cs]
  from spec have e: "build_children_map ?notes ''sub_1'' = Some ?cs"
    by (simp add: cdate_key_def)
  with spec have "sorted (map cdate_key ?cs)"
    by blast
  with e show ?thesis
    by blast
qed

section \<open>The calendar\<close>

lemma div32:
  fixes x k :: int
  assumes "32 * k \<le> x" "x < 32 * k + 32"
  shows "x div 32 = k"
  by (rule int_div_pos_eq [where r = "x - 32 * k"]) (use assms in auto)

lemma month_day_at:
  assumes "32 * k \<le> n + 50" "n + 50 < 32 * k + 32"
  shows "month_day L n =
     (if days_before_month_tab ! nat k + (if k > 2 \<and> L then 1 else 0) > n
      then (k - 1,
            n - (days_before_month_tab ! nat k + (if k > 2 \<and> L then 1 else 0)
                 - (days_in_month_tab ! nat (k - 1) + (if k - 1 = 2 \<and> L then 1 else 0))) + 1)
      else (k, n - (days_before_month_tab ! nat k + (if k > 2 \<and> L then 1 else 0)) + 1))"
  using div32 [OF assms] by (simp add: month_day_def Let_def)

lemmas month_tabs = days_before_month_tab_def days_in_month_tab_def

lemma month_day_common_1:
  assumes "1 \<le> d" "d \<le> 31"
  shows "month_day False (0 + d - 1) = (1, d)"
proof (cases "d \<le> 14")
  case True
  with assms show ?thesis
    by (simp add: month_day_at [where k = 1] month_tabs)
next
  case False
  with assms show ?thesis
    by (simp add: month_day_at [where k = 2] month_tabs)
qed

lemma month_day_common_2:
  assumes "1 \<le> d" "d \<le> 28"
  shows "month_day False (31 + d - 1) = (2, d)"
proof (cases "d \<le> 15")
  case True
  with assms show ?thesis
    by (simp add: month_day_at [where k = 2] month_tabs)
next
  case False
  with assms show ?thesis
    by (simp add: month_day_at [where k = 3] month_tabs)
qed

lemma month_day_common_3:
  assumes "1 \<le> d" "d \<le> 31"
  shows "month_day False (59 + d - 1) = (3, d)"
proof (cases "d \<le> 19")
  case True
  with assms show ?thesis
    by (simp add: month_day_at [where k = 3] month_tabs)
next
  case False
  with assms show ?thesis
    by (simp add: month_day_at [where k = 4] month_tabs)
qed

lemma month_day_common_4:
  assumes "1 \<le> d" "d \<le> 30"
  shows "month_day False (90 + d - 1) = (4, d)"
proof (cases "d \<le> 20")
  case True
  with assms show ?thesis
    by (simp add: month_day_at [where k = 4] month_tabs)
next
  case False
  with assms show ?thesis
    by (simp add: month_day_at [where k = 5] month_tabs)
qed

lemma month_day_common_5:
  assumes "1 \<le> d" "d \<le> 31"
  shows "month_day False (120 + d - 1) = (5, d)"
proof (cases "d \<le> 22")
  case True
  with assms show ?thesis
    by (simp add: month_day_at [where k = 5] month_tabs)
next
  case False
  with assms show ?thesis
    by (simp add: month_day_at [where k = 6] month_tabs)
qed

lemma month_day_common_6:
  assumes "1 \<le> d" "d \<le> 30"
  shows "month_day False (151 + d - 1) = (6, d)"
proof (cases "d \<le> 23")
  case True
  with assms show ?thesis
    by (simp add: month_day_at [where k = 6] month_tabs)
next
  case False
  with assms show ?thesis
    by (simp add: month_day_at [where k = 7] month_tabs)
qed

lemma month_day_common_7:
  assumes "1 \<le> d" "d \<le> 31"
  shows "month_day False (181 + d - 1) = (7, d)"
proof (cases "d \<le> 25")
  case True
  with assms show ?thesis
    by (simp add: month_day_at [where k = 7] month_tabs)
next
  case False
  with assms show ?thesis
    by (simp add: month_day_at [where k = 8] month_tabs)
qed

lemma month_day_common_8:
  assumes "1 \<le> d" "d \<le> 31"
  shows "month_day False (212 + d - 1) = (8, d)"
proof (cases "d \<le> 26")
  case True
  with assms show ?thesis
    by (simp add: month_day_at [where k = 8] month_tabs)
next
  case False
  with assms show ?thesis
    by (simp add: month_day_at [where k = 9] month_tabs)
qed

lemma month_day_common_9:
  assumes "1 \<le> d" "d \<le> 30"
  shows "month_day False (243 + d - 1) = (9, d)"
proof (cases "d \<le> 27")
  case True
  with assms show ?thesis
    by (simp add: month_day_at [where k = 9] month_tabs)
next
  case False
  with assms show ?thesis
    by (simp add: month_day_at [where k = 10] month_tabs)
qed

lemma month_day_common_10:
  assumes "1 \<le> d" "d \<le> 31"
  shows "month_day False (273 + d - 1) = (10, d)"
proof (cases "d \<le> 29")
  case True
  with assms show ?thesis
    by (simp add: month_day_at [where k = 10] month_tabs)
next
  case False
  with assms show ?thesis
    by (simp add: month_day_at [where k = 11] month_tabs)
qed

lemma month_day_common_11:
  assumes "1 \<le> d" "d \<le> 30"
  shows "month_day False (304 + d - 1) = (11, d)"
  using assms by (simp add: month_day_at [where k = 11] month_tabs)

lemma month_day_common_12:
  assumes "1 \<le> d" "d \<le> 31"
  shows "month_day False (334 + d - 1) = (12, d)"
  using assms by (simp add: month_day_at [where k = 12] month_tabs)

lemma month_day_leap_1:
  assumes "1 \<le> d" "d \<le> 31"
  shows "month_day True (0 + d - 1) = (1, d)"
proof (cases "d \<le> 14")
  case True
  with assms show ?thesis
    by (simp add: month_day_at [where k = 1] month_tabs)
next
  case False
  with assms show ?thesis
    by (simp add: month_day_at [where k = 2] month_tabs)
qed

lemma month_day_leap_2:
  assumes "1 \<le> d" "d \<le> 29"
  shows "month_day True (31 + d - 1) = (2, d)"
proof (cases "d \<le> 15")
  case True
  with assms show ?thesis
    by (simp add: month_day_at [where k = 2] month_tabs)
next
  case False
  with assms show ?thesis
    by (simp add: month_day_at [where k = 3] month_tabs)
qed

lemma month_day_leap_3:
  assumes "1 \<le> d" "d \<le> 31"
  shows "month_day True (60 + d - 1) = (3, d)"
proof (cases "d \<le> 18")
  case True
  with assms show ?thesis
    by (simp add: month_day_at [where k = 3] month_tabs)
next
  case False
  with assms show ?thesis
    by (simp add: month_day_at [where k = 4] month_tabs)
qed

lemma month_day_leap_4:
  assumes "1 \<le> d" "d \<le> 30"
  shows "month_day True (91 + d - 1) = (4, d)"
proof (cases "d \<le> 19")
  case True
  with assms show ?thesis
    by (simp add: month_day_at [where k = 4] month_tabs)
next
  case False
  with assms show ?thesis
    by (simp add: month_day_at [where k = 5] month_tabs)
qed

lemma month_day_leap_5:
  assumes "1 \<le> d" "d \<le> 31"
  shows "month_day True (121 + d - 1) = (5, d)"
proof (cases "d \<le> 21")
  case True
  with assms show ?thesis
    by (simp add: month_day_at [where k = 5] month_tabs)
next
  case False
  with assms show ?thesis
    by (simp add: month_day_at [where k = 6] month_tabs)
qed

lemma month_day_leap_6:
  assumes "1 \<le> d" "d \<le> 30"
  shows "month_day True (152 + d - 1) = (6, d)"
proof (cases "d \<le> 22")
  case True
  with assms show ?thesis
    by (simp add: month_day_at [where k = 6] month_tabs)
next
  case False
  with assms show ?thesis
    by (simp add: month_day_at [where k = 7] month_tabs)
qed

lemma month_day_leap_7:
  assumes "1 \<le> d" "d \<le> 31"
  shows "month_day True (182 + d - 1) = (7, d)"
proof (cases "d \<le> 24")
  case True
  with assms show ?thesis
    by (simp add: month_day_at [where k = 7] month_tabs)
next
  case False
  with assms show ?thesis
    by (simp add: month_day_at [where k = 8] month_tabs)
qed

lemma month_day_leap_8:
  assumes "1 \<le> d" "d \<le> 31"
  shows "month_day True (213 + d - 1) = (8, d)"
proof (cases "d \<le> 25")
  case True
  with assms show ?thesis
    by (simp add: month_day_at [where k = 8] month_tabs)
next
  case False
  with assms show ?thesis
    by (simp add: month_day_at [where k = 9] month_tabs)
qed

lemma month_day_leap_9:
  assumes "1 \<le> d" "d \<le> 30"
  shows "month_day True (244 + d - 1) = (9, d)"
proof (cases "d \<le> 26")
  case True
  with assms show ?thesis
    by (simp add: month_day_at [where k = 9] month_tabs)
next
  case False
  with assms show ?thesis
    by (simp add: month_day_at [where k = 10] month_tabs)
qed

lemma month_day_leap_10:
  assumes "1 \<le> d" "d \<le> 31"
  shows "month_day True (274 + d - 1) = (10, d)"
proof (cases "d \<le> 28")
  case True
  with assms show ?thesis
    by (simp add: month_day_at [where k = 10] month_tabs)
next
  case False
  with assms show ?thesis
    by (simp add: month_day_at [where k = 11] month_tabs)
qed

lemma month_day_leap_11:
  assumes "1 \<le> d" "d \<le> 30"
  shows "month_day True (305 + d - 1) = (11, d)"
proof (cases "d \<le> 29")
  case True
  with assms show ?thesis
    by (simp add: month_day_at [where k = 11] month_tabs)
next
  case False
  with assms show ?thesis
    by (simp add: month_day_at [where k = 12] month_tabs)
qed

lemma month_day_leap_12:
  assumes "1 \<le> d" "d \<le> 31"
  shows "month_day True (335 + d - 1) = (12, d)"
  using assms by (simp add: month_day_at [where k = 12] month_tabs)

lemma month_cases:
  fixes m :: int
  assumes "1 \<le> m" "m \<le> 12"
  shows "m = 1 \<or> m = 2 \<or> m = 3 \<or> m = 4 \<or> m = 5 \<or> m = 6
         \<or> m = 7 \<or> m = 8 \<or> m = 9 \<or> m = 10 \<or> m = 11 \<or> m = 12"
  using assms by presburger

lemma month_day_of_date:
  assumes "1 \<le> m" "m \<le> 12" "1 \<le> d" "d \<le> days_in_month y m"
  shows "month_day (is_leap y) (days_before_month y m + d - 1) = (m, d)"
proof -
  consider "m = 1" | "m = 2" | "m = 3" | "m = 4" | "m = 5" | "m = 6" | "m = 7" | "m = 8" | "m = 9" | "m = 10" | "m = 11" | "m = 12"
    using month_cases [OF assms(1,2)] by blast
  then show ?thesis
  proof cases
    case 1
    with assms(3,4) month_day_common_1 [of d] month_day_leap_1 [of d] show ?thesis
      by (cases "is_leap y") (simp_all add: days_before_month_def days_in_month_def)
  next
    case 2
    with assms(3,4) month_day_common_2 [of d] month_day_leap_2 [of d] show ?thesis
      by (cases "is_leap y") (simp_all add: days_before_month_def days_in_month_def)
  next
    case 3
    with assms(3,4) month_day_common_3 [of d] month_day_leap_3 [of d] show ?thesis
      by (cases "is_leap y") (simp_all add: days_before_month_def days_in_month_def)
  next
    case 4
    with assms(3,4) month_day_common_4 [of d] month_day_leap_4 [of d] show ?thesis
      by (cases "is_leap y") (simp_all add: days_before_month_def days_in_month_def)
  next
    case 5
    with assms(3,4) month_day_common_5 [of d] month_day_leap_5 [of d] show ?thesis
      by (cases "is_leap y") (simp_all add: days_before_month_def days_in_month_def)
  next
    case 6
    with assms(3,4) month_day_common_6 [of d] month_day_leap_6 [of d] show ?thesis
      by (cases "is_leap y") (simp_all add: days_before_month_def days_in_month_def)
  next
    case 7
    with assms(3,4) month_day_common_7 [of d] month_day_leap_7 [of d] show ?thesis
      by (cases "is_leap y") (simp_all add: days_before_month_def days_in_month_def)
  next
    case 8
    with assms(3,4) month_day_common_8 [of d] month_day_leap_8 [of d] show ?thesis
      by (cases "is_leap y") (simp_all add: days_before_month_def days_in_month_def)
  next
    case 9
    with assms(3,4) month_day_common_9 [of d] month_day_leap_9 [of d] show ?thesis
      by (cases "is_leap y") (simp_all add: days_before_month_def days_in_month_def)
  next
    case 10
    with assms(3,4) month_day_common_10 [of d] month_day_leap_10 [of d] show ?thesis
      by (cases "is_leap y") (simp_all add: days_before_month_def days_in_month_def)
  next
    case 11
    with assms(3,4) month_day_common_11 [of d] month_day_leap_11 [of d] show ?thesis
      by (cases "is_leap y") (simp_all add: days_before_month_def days_in_month_def)
  next
    case 12
    with assms(3,4) month_day_common_12 [of d] month_day_leap_12 [of d] show ?thesis
      by (cases "is_leap y") (simp_all add: days_before_month_def days_in_month_def)
  qed
qed

lemma day_of_year_range:
  assumes "1 \<le> m" "m \<le> 12" "1 \<le> d" "d \<le> days_in_month y m"
  shows "0 \<le> days_before_month y m + d - 1
         \<and> days_before_month y m + d - 1 \<le> 365
         \<and> (days_before_month y m + d - 1 = 365 \<longrightarrow> is_leap y \<and> m = 12 \<and> d = 31)"
proof -
  consider "m = 1" | "m = 2" | "m = 3" | "m = 4" | "m = 5" | "m = 6" | "m = 7" | "m = 8" | "m = 9" | "m = 10" | "m = 11" | "m = 12"
    using month_cases [OF assms(1,2)] by blast
  then show ?thesis
  proof cases
    case 1
    with assms(3,4) show ?thesis
      by (cases "is_leap y") (simp_all add: days_before_month_def days_in_month_def)
  next
    case 2
    with assms(3,4) show ?thesis
      by (cases "is_leap y") (simp_all add: days_before_month_def days_in_month_def)
  next
    case 3
    with assms(3,4) show ?thesis
      by (cases "is_leap y") (simp_all add: days_before_month_def days_in_month_def)
  next
    case 4
    with assms(3,4) show ?thesis
      by (cases "is_leap y") (simp_all add: days_before_month_def days_in_month_def)
  next
    case 5
    with assms(3,4) show ?thesis
      by (cases "is_leap y") (simp_all add: days_before_month_def days_in_month_def)
  next
    case 6
    with assms(3,4) show ?thesis
      by (cases "is_leap y") (simp_all add: days_before_month_def days_in_month_def)
  next
    case 7
    with assms(3,4) show ?thesis
      by (cases "is_leap y") (simp_all add: days_before_month_def days_in_month_def)
  next
    case 8
    with assms(3,4) show ?thesis
      by (cases "is_leap y") (simp_all add: days_before_month_def days_in_month_def)
  next
    case 9
    with assms(3,4) show ?thesis
      by (cases "is_leap y") (simp_all add: days_before_month_def days_in_month_def)
  next
    case 10
    with assms(3,4) show ?thesis
      by (cases "is_leap y") (simp_all add: days_before_month_def days_in_month_def)
  next
    case 11
    with assms(3,4) show ?thesis
      by (cases "is_leap y") (simp_all add: days_before_month_def days_in_month_def)
  next
    case 12
    with assms(3,4) show ?thesis
      by (cases "is_leap y") (simp_all add: days_before_month_def days_in_month_def)
  qed
qed

lemma ord2ymd_digits:
  assumes "0 \<le> r" "r < 365" "0 \<le> e" "365 * e + r < 1461"
    "0 \<le> c" "1461 * c + 365 * e + r < 36524"
    "0 \<le> b" "36524 * b + 1461 * c + 365 * e + r < 146097"
  shows "ord2ymd (146097 * a + 36524 * b + 1461 * c + 365 * e + r + 1) =
     (if e = 4 \<or> b = 4 then (a * 400 + 1 + b * 100 + c * 4 + e - 1, 12, 31)
      else (case month_day (e = 3 \<and> (c \<noteq> 24 \<or> b = 3)) r of
              (month, day) \<Rightarrow> (a * 400 + 1 + b * 100 + c * 4 + e, month, day)))"
proof -
  define R3 where "R3 = 365 * e + r"
  define R2 where "R2 = 1461 * c + R3"
  define R1 where "R1 = 36524 * b + R2"
  define n where "n = 146097 * a + R1"
  have r3: "0 \<le> R3" "R3 < 1461"
    using assms by (auto simp: R3_def)
  have r2: "0 \<le> R2" "R2 < 36524"
    using assms r3 by (auto simp: R2_def R3_def)
  have r1: "0 \<le> R1" "R1 < 146097"
    using assms r2 by (auto simp: R1_def R2_def R3_def)
  have d1: "n div 146097 = a" and m1: "n mod 146097 = R1"
    using r1 by (auto simp: n_def intro: int_div_pos_eq int_mod_pos_eq)
  have d2: "R1 div 36524 = b" and m2: "R1 mod 36524 = R2"
    using r2 by (auto simp: R1_def intro: int_div_pos_eq int_mod_pos_eq)
  have d3: "R2 div 1461 = c" and m3: "R2 mod 1461 = R3"
    using r3 by (auto simp: R2_def intro: int_div_pos_eq int_mod_pos_eq)
  have d4: "R3 div 365 = e" and m4: "R3 mod 365 = r"
    using assms(1,2) by (auto simp: R3_def intro: int_div_pos_eq int_mod_pos_eq)
  have main: "ord2ymd (n + 1) =
     (if e = 4 \<or> b = 4 then (a * 400 + 1 + b * 100 + c * 4 + e - 1, 12, 31)
      else (case month_day (e = 3 \<and> (c \<noteq> 24 \<or> b = 3)) r of
              (month, day) \<Rightarrow> (a * 400 + 1 + b * 100 + c * 4 + e, month, day)))"
    by (simp add: ord2ymd_def Let_def d1 m1 d2 m2 d3 m3 d4 m4)
  have "146097 * a + 36524 * b + 1461 * c + 365 * e + r + 1 = n + 1"
    by (simp add: n_def R1_def R2_def R3_def)
  with main show ?thesis
    by simp
qed

lemma year_digits:
  fixes y :: int
  obtains a b c e where "y - 1 = 400 * a + 100 * b + 4 * c + e"
    "0 \<le> b" "b \<le> 3" "0 \<le> c" "c \<le> 24" "0 \<le> e" "e \<le> 3"
proof -
  define a where "a = (y - 1) div 400"
  define q where "q = (y - 1) mod 400"
  define b where "b = q div 100"
  define q2 where "q2 = q mod 100"
  define c where "c = q2 div 4"
  define e where "e = q2 mod 4"
  have 1: "y - 1 = 400 * a + q" "0 \<le> q" "q < 400"
    by (simp_all add: a_def q_def)
  have 2: "q = 100 * b + q2" "0 \<le> q2" "q2 < 100"
    by (simp_all add: b_def q2_def)
  have 3: "q2 = 4 * c + e" "0 \<le> e" "e < 4"
    by (simp_all add: c_def e_def)
  from 1 2 3 have "y - 1 = 400 * a + 100 * b + 4 * c + e"
    "0 \<le> b" "b \<le> 3" "0 \<le> c" "c \<le> 24" "0 \<le> e" "e \<le> 3"
    by linarith+
  then show ?thesis
    by (rule that)
qed

lemma days_before_year_digits:
  assumes "y - 1 = 400 * a + 100 * b + 4 * c + e"
    "0 \<le> b" "b \<le> 3" "0 \<le> c" "c \<le> 24" "0 \<le> e" "e \<le> 3"
  shows "days_before_year y = 146097 * a + 36524 * b + 1461 * c + 365 * e"
proof -
  have "(y - 1) div 4 = 100 * a + 25 * b + c"
    by (rule int_div_pos_eq [where r = e]) (use assms in auto)
  moreover have "(y - 1) div 100 = 4 * a + b"
    by (rule int_div_pos_eq [where r = "4 * c + e"]) (use assms in auto)
  moreover have "(y - 1) div 400 = a"
    by (rule int_div_pos_eq [where r = "100 * b + 4 * c + e"]) (use assms in auto)
  ultimately show ?thesis
    using assms(1) by (simp add: days_before_year_def)
qed

lemma is_leap_digits:
  assumes "y - 1 = 400 * a + 100 * b + 4 * c + e"
    "0 \<le> b" "b \<le> 3" "0 \<le> c" "c \<le> 24" "0 \<le> e" "e \<le> 3"
  shows "is_leap y \<longleftrightarrow> e = 3 \<and> (c \<noteq> 24 \<or> b = 3)"
proof -
  have m4: "y mod 4 = (if e = 3 then 0 else e + 1)"
  proof (cases "e = 3")
    case True
    have "y mod 4 = 0"
      by (rule int_mod_pos_eq [where q = "100 * a + 25 * b + c + 1"]) (use assms True in auto)
    with True show ?thesis by simp
  next
    case False
    have "y mod 4 = e + 1"
      by (rule int_mod_pos_eq [where q = "100 * a + 25 * b + c"]) (use assms False in auto)
    with False show ?thesis by simp
  qed
  have m100: "y mod 100 = (if c = 24 \<and> e = 3 then 0 else 4 * c + e + 1)"
  proof (cases "c = 24 \<and> e = 3")
    case True
    have "y mod 100 = 0"
      by (rule int_mod_pos_eq [where q = "4 * a + b + 1"]) (use assms True in auto)
    with True show ?thesis by simp
  next
    case False
    have "y mod 100 = 4 * c + e + 1"
      by (rule int_mod_pos_eq [where q = "4 * a + b"]) (use assms False in auto)
    with False show ?thesis by simp
  qed
  have m400: "y mod 400 = (if b = 3 \<and> c = 24 \<and> e = 3 then 0 else 100 * b + 4 * c + e + 1)"
  proof (cases "b = 3 \<and> c = 24 \<and> e = 3")
    case True
    have "y mod 400 = 0"
      by (rule int_mod_pos_eq [where q = "a + 1"]) (use assms True in auto)
    with True show ?thesis by simp
  next
    case False
    have "y mod 400 = 100 * b + 4 * c + e + 1"
      by (rule int_mod_pos_eq [where q = a]) (use assms False in auto)
    with False show ?thesis by simp
  qed
  show ?thesis
    unfolding is_leap_def m4 m100 m400 using assms(2-7) by auto
qed

lemma civil_from_days_of_date:
  assumes "is_date_of_day (y, m, d) day"
  shows "civil_from_days day = (y, m, d)"
proof -
  from assms have v: "1 \<le> m" "m \<le> 12" "1 \<le> d" "d \<le> days_in_month y m"
    and eq: "days_before_year y + days_before_month y m + d = day + 719163"
    by (auto simp: is_date_of_day_def)
  obtain a b c e where dg: "y - 1 = 400 * a + 100 * b + 4 * c + e"
    "0 \<le> b" "b \<le> 3" "0 \<le> c" "c \<le> 24" "0 \<le> e" "e \<le> 3"
    by (rule year_digits)
  define r where "r = days_before_month y m + d - 1"
  have rr: "0 \<le> r" "r \<le> 365" "r = 365 \<longrightarrow> is_leap y \<and> m = 12 \<and> d = 31"
    using day_of_year_range [OF v] by (simp_all add: r_def)
  have leap: "is_leap y \<longleftrightarrow> e = 3 \<and> (c \<noteq> 24 \<or> b = 3)"
    by (rule is_leap_digits [OF dg])
  have ord: "day + 719163 = 146097 * a + 36524 * b + 1461 * c + 365 * e + r + 1"
    using eq days_before_year_digits [OF dg] by (simp add: r_def)
  show ?thesis
  proof (cases "r = 365")
    case False
    with rr have r364: "r < 365"
      by simp
    have "ord2ymd (146097 * a + 36524 * b + 1461 * c + 365 * e + r + 1) =
       (if e = 4 \<or> b = 4 then (a * 400 + 1 + b * 100 + c * 4 + e - 1, 12, 31)
        else (case month_day (e = 3 \<and> (c \<noteq> 24 \<or> b = 3)) r of
                (month, day) \<Rightarrow> (a * 400 + 1 + b * 100 + c * 4 + e, month, day)))"
      by (rule ord2ymd_digits) (use dg rr r364 in auto)
    moreover have "month_day (e = 3 \<and> (c \<noteq> 24 \<or> b = 3)) r = (m, d)"
      using month_day_of_date [OF v] leap by (simp add: r_def)
    ultimately have "ord2ymd (146097 * a + 36524 * b + 1461 * c + 365 * e + r + 1)
                     = (a * 400 + 1 + b * 100 + c * 4 + e, m, d)"
      using dg by simp
    moreover have "a * 400 + 1 + b * 100 + c * 4 + e = y"
      using dg(1) by simp
    ultimately show ?thesis
      by (simp only: civil_from_days_def ord)
  next
    case True
    with rr leap have l: "e = 3" "c \<noteq> 24 \<or> b = 3" "m = 12" "d = 31"
      by auto
    show ?thesis
    proof (cases "c = 24")
      case True
      with l have b: "b = 3"
        by simp
      have "ord2ymd (146097 * a + 36524 * 4 + 1461 * 0 + 365 * 0 + 0 + 1) =
         (if (0::int) = 4 \<or> (4::int) = 4 then (a * 400 + 1 + 4 * 100 + 0 * 4 + 0 - 1, 12, 31)
          else (case month_day ((0::int) = 3 \<and> ((0::int) \<noteq> 24 \<or> (4::int) = 3)) 0 of
                  (month, day) \<Rightarrow> (a * 400 + 1 + 4 * 100 + 0 * 4 + 0, month, day)))"
        by (rule ord2ymd_digits) auto
      then have "ord2ymd (146097 * a + 146097) = (a * 400 + 400, 12, 31)"
        by (simp add: ac_simps)
      moreover have "day + 719163 = 146097 * a + 146097"
        using ord \<open>r = 365\<close> True b l by simp
      moreover have "a * 400 + 400 = y"
        using dg(1) True b l by simp
      ultimately show ?thesis
        using l by (simp only: civil_from_days_def)
    next
      case False
      with dg have c23: "c \<le> 23"
        by simp
      have "ord2ymd (146097 * a + 36524 * b + 1461 * c + 365 * 4 + 0 + 1) =
         (if (4::int) = 4 \<or> b = 4 then (a * 400 + 1 + b * 100 + c * 4 + 4 - 1, 12, 31)
          else (case month_day ((4::int) = 3 \<and> (c \<noteq> 24 \<or> b = 3)) 0 of
                  (month, day) \<Rightarrow> (a * 400 + 1 + b * 100 + c * 4 + 4, month, day)))"
        by (rule ord2ymd_digits) (use dg c23 in auto)
      then have "ord2ymd (146097 * a + 36524 * b + 1461 * c + 1461) =
         (a * 400 + b * 100 + c * 4 + 4, 12, 31)"
        by (simp add: ac_simps)
      moreover have "day + 719163 = 146097 * a + 36524 * b + 1461 * c + 1461"
        using ord \<open>r = 365\<close> l by simp
      moreover have "a * 400 + b * 100 + c * 4 + 4 = y"
        using dg(1) l by simp
      ultimately show ?thesis
        using l by (simp only: civil_from_days_def)
    qed
  qed
qed

lemma str_nat_step: "10 \<le> n \<Longrightarrow> str_nat n = str_nat (n div 10) @ [char_of (48 + n mod 10)]"
  by (subst str_nat.simps) simp

lemma str_nat_digit: "n < 10 \<Longrightarrow> str_nat n = [char_of (48 + n)]"
  by (subst str_nat.simps) simp

lemma char_of_48: "char_of (48::nat) = CHR ''0''"
  by code_simp

lemma str_nat_digits4:
  assumes "1000 \<le> n" "n \<le> 9999"
  shows "str_nat n = [char_of (48 + n div 1000 mod 10), char_of (48 + n div 100 mod 10),
                      char_of (48 + n div 10 mod 10), char_of (48 + n mod 10)]"
proof -
  have a: "n div 10 div 10 = n div 100" "n div 10 div 10 div 10 = n div 1000"
    by (simp_all add: div_mult2_eq [symmetric])
  have b: "10 \<le> n" "10 \<le> n div 10" "10 \<le> n div 10 div 10" "n div 10 div 10 div 10 < 10"
    using assms unfolding a by linarith+
  have "str_nat n = [char_of (48 + n div 10 div 10 div 10), char_of (48 + n div 10 div 10 mod 10),
                     char_of (48 + n div 10 mod 10), char_of (48 + n mod 10)]"
    using b by (simp add: str_nat_step str_nat_digit)
  with b(4) show ?thesis
    unfolding a by simp
qed

lemma str_nat_digits2:
  assumes "n \<le> 99"
  shows "(if n < 10 then ''0'' @ str_nat n else str_nat n)
         = [char_of (48 + n div 10 mod 10), char_of (48 + n mod 10)]"
proof (cases "n < 10")
  case True
  then show ?thesis
    by (simp add: str_nat_digit char_of_48)
next
  case False
  moreover from assms have "n div 10 < 10"
    by linarith
  ultimately show ?thesis
    by (simp add: str_nat_step str_nat_digit)
qed

lemma decimal_digits4:
  assumes "1000 \<le> y" "y \<le> 9999"
  shows "decimal y = digits4 y"
proof -
  have n: "1000 \<le> nat y" "nat y \<le> 9999"
    using assms by simp_all
  show ?thesis
    using assms str_nat_digits4 [OF n]
    by (simp add: decimal_def digits4_def digit_def nat_div_distrib nat_mod_distrib)
qed

lemma pad2_digits2:
  assumes "0 \<le> k" "k \<le> 99"
  shows "pad2 k = digits2 k"
proof (cases "k < 10")
  case True
  with assms have "nat k < 10" "k div 10 = 0" "k mod 10 = k"
    by simp_all
  with True assms show ?thesis
    by (simp add: pad2_def decimal_def digits2_def digit_def str_nat_digit char_of_48)
next
  case False
  with assms have "10 \<le> nat k" "nat k div 10 < 10" "k div 10 < 10" "0 \<le> k div 10"
    by simp_all
  with False assms show ?thesis
    by (simp add: pad2_def decimal_def digits2_def digit_def str_nat_step str_nat_digit
        nat_div_distrib nat_mod_distrib)
qed

section \<open>The file unit\<close>

lemma fromtimestamp_Inr:
  "fromtimestamp env cd = Inr s \<Longrightarrow> s = local_time env (cd div 1000) \<and> year_ok s"
  by (auto simp: fromtimestamp_def Let_def split: if_splits)

lemma fromtimestamp_error: "fromtimestamp env cd = Inl e \<Longrightarrow> e = DateOutOfRange"
  by (auto simp: fromtimestamp_def Let_def split: if_splits)

lemma format_note_lines_error:
  "note_lines env n level = Inl e \<Longrightarrow> format_note env n include_replies level = Inl e"
  by (cases n) simp

lemma note_lines_date_error:
  "date_str env n = Inl e \<Longrightarrow> note_lines env n level = Inl e"
  by (simp add: note_lines_def)

lemma format_note_Inr_date:
  "format_note env n include_replies level = Inr markdown \<Longrightarrow> \<exists>ds. date_str env n = Inr ds"
  by (cases n) (auto simp: note_lines_def split: sum.splits)

lemma join_spec_joined: "join '', '' (s # ss) = spec_joined (s # ss)"
  by (induction ss arbitrary: s) auto

lemma signatures_str_spec: "signatures_str n = spec_author n"
proof (cases "signatures n")
  case None
  then show ?thesis
    by (simp add: signatures_str_def spec_author_def)
next
  case (Some sigs)
  then show ?thesis
    by (cases sigs) (simp_all add: signatures_str_def spec_author_def join_spec_joined
        del: join.simps spec_joined.simps)
qed

lemma safe_filename_spec:
  "replace_char CHR '' '' CHR ''_'' (replace_char CHR ''/'' CHR ''_'' (signatures_str n))
   = spec_safe (spec_author n)"
  by (simp add: replace_char_def spec_safe_def signatures_str_spec)

lemma format_note_to_file_cases:
  "format_note_to_file env n filename =
     (case file_date_str env n of
        Inl e \<Rightarrow> Inl e
      | Inr dp \<Rightarrow>
          (case format_note env n True 0 of
             Inl e \<Rightarrow> Inl e
           | Inr markdown \<Rightarrow> Inr (markdown, dp @ ''_'' @ spec_safe (spec_author n) @ ''.md'')))"
  by (simp add: format_note_to_file_def safe_filename_spec split: sum.splits)

lemma file_date_error:
  assumes "file_date_str env n = Inl e"
  shows "format_note env n True 0 = Inl e"
proof -
  from assms have "date_str env n = Inl e"
    by (auto simp: file_date_str_def date_str_def split: option.splits if_splits sum.splits)
  then show ?thesis
    by (simp add: note_lines_date_error format_note_lines_error)
qed

lemma file_date_unknown:
  "cdate n = None \<or> cdate n = Some 0 \<Longrightarrow> file_date_str env n = Inr ''unknown''"
  by (auto simp: file_date_str_def)

lemma days_in_month_le: "days_in_month y m \<le> 31"
  by (simp add: days_in_month_def)

lemma file_date_known:
  assumes ok: "format_note env n True 0 = Inr markdown"
    and cd: "cdate n = Some cd" "cd \<noteq> 0"
    and date: "is_date_of_day (y, m, d) (local_time env (cd div 1000) div 86400)"
    and y: "1000 \<le> y"
  shows "file_date_str env n = Inr (digits4 y @ digits2 m @ digits2 d)"
proof -
  from format_note_Inr_date [OF ok] cd obtain s where s: "fromtimestamp env cd = Inr s"
    by (auto simp: date_str_def split: sum.splits)
  then have sv: "s = local_time env (cd div 1000)" and yo: "year_ok s"
    using fromtimestamp_Inr by blast+
  have civ: "civil_from_days (s div 86400) = (y, m, d)"
    using civil_from_days_of_date [OF date] sv by simp
  with yo have y9: "y \<le> 9999"
    by (simp add: year_ok_def)
  from date have md: "1 \<le> m" "m \<le> 12" "1 \<le> d" "d \<le> days_in_month y m"
    by (auto simp: is_date_of_day_def)
  with days_in_month_le [of y m] have "d \<le> 99" "m \<le> 99" "0 \<le> m" "0 \<le> d"
    by linarith+
  then have "strftime_date s = digits4 y @ digits2 m @ digits2 d"
    using y y9 by (simp add: strftime_date_def civ decimal_digits4 pad2_digits2)
  with s cd show ?thesis
    by (simp add: file_date_str_def)
qed

lemma fromtimestamp_year_10000: "fromtimestamp utc_env 253402300800000 = Inl DateOutOfRange"
  by code_simp

text \<open>
  C9, as stated: for every node \<^verbatim>\<open>format_note_to_file\<close> returns a pair. A note created
  in the first second of the year 10000 (UTC) makes \<^verbatim>\<open>datetime.fromtimestamp\<close> raise,
  and no pair is returned.
\<close>

theorem format_note_to_file_year_10000:
  "format_note_to_file utc_env
     (Note (Some ''n1'') (Some [''Reviewer ABC'']) (Some 253402300800000) None None None) []
   = Inl DateOutOfRange"
  by (simp add: format_note_to_file_def file_date_str_def fromtimestamp_year_10000)

text \<open>
  C9, amended. When the single-node render with replies at depth 0 raises,
  \<^verbatim>\<open>format_note_to_file\<close> raises the same exception; otherwise it returns that render
  paired with the file name: \<^verbatim>\<open>unknown\<close> when \<^verbatim>\<open>cdate\<close> is absent or zero, else the local
  calendar date of \<^verbatim>\<open>cdate\<close> as year, month and day in four, two and two digits (for years
  from 1000 on), then an underscore, the author text made safe, and \<^verbatim>\<open>.md\<close>. A note of
  the local day 2021-01-01 signed \<^verbatim>\<open>Reviewer ABC\<close> is named \<^verbatim>\<open>20210101_Reviewer_ABC.md\<close>.
\<close>

theorem format_note_to_file_spec:
  "(format_note env n True 0 = Inl e \<longrightarrow> format_note_to_file env n filename = Inl e)
   \<and> (format_note env n True 0 = Inr markdown \<and> (cdate n = None \<or> cdate n = Some 0)
        \<longrightarrow> format_note_to_file env n filename
            = Inr (markdown, ''unknown'' @ ''_'' @ spec_safe (spec_author n) @ ''.md''))
   \<and> (format_note env n True 0 = Inr markdown \<and> cdate n = Some cd \<and> cd \<noteq> 0
        \<and> is_date_of_day (y, m, d) (local_time env (cd div 1000) div 86400) \<and> 1000 \<le> y
        \<longrightarrow> format_note_to_file env n filename
            = Inr (markdown, (digits4 y @ digits2 m @ digits2 d) @ ''_''
                             @ spec_safe (spec_author n) @ ''.md''))
   \<and> (format_note env n True 0 = Inr markdown \<and> cdate n = Some cd \<and> cd \<noteq> 0
        \<and> is_date_of_day (2021, 1, 1) (local_time env (cd div 1000) div 86400)
        \<and> signatures n = Some [''Reviewer ABC'']
        \<longrightarrow> format_note_to_file env n filename = Inr (markdown, ''20210101_Reviewer_ABC.md''))"
proof -
  have a: "format_note_to_file env n filename = Inl e" if "format_note env n True 0 = Inl e"
    using that file_date_error [of env n]
    by (cases "file_date_str env n") (auto simp: format_note_to_file_cases)
  have b: "format_note_to_file env n filename
           = Inr (markdown, ''unknown'' @ ''_'' @ spec_safe (spec_author n) @ ''.md'')"
    if "format_note env n True 0 = Inr markdown" "cdate n = None \<or> cdate n = Some 0"
    using that file_date_unknown [of n env] by (simp add: format_note_to_file_cases)
  have c: "format_note_to_file env n filename
           = Inr (markdown, (digits4 y' @ digits2 m' @ digits2 d') @ ''_''
                            @ spec_safe (spec_author n) @ ''.md'')"
    if "format_note env n True 0 = Inr markdown" "cdate n = Some cd" "cd \<noteq> 0"
      "is_date_of_day (y', m', d') (local_time env (cd div 1000) div 86400)" "1000 \<le> y'"
    for y' m' d'
    using that file_date_known [of env n markdown cd y' m' d']
    by (simp add: format_note_to_file_cases)
  have d: "format_note_to_file env n filename = Inr (markdown, ''20210101_Reviewer_ABC.md'')"
    if "format_note env n True 0 = Inr markdown" "cdate n = Some cd" "cd \<noteq> 0"
      "is_date_of_day (2021, 1, 1) (local_time env (cd div 1000) div 86400)"
      "signatures n = Some [''Reviewer ABC'']"
  proof -
    have "digits4 2021 = ''2021''" "digits2 1 = ''01''"
      by code_simp+
    moreover have "spec_safe (spec_author n) = ''Reviewer_ABC''"
      using that(5) by (simp add: spec_author_def spec_safe_def)
    ultimately show ?thesis
      using c [of 2021 1 1] that by simp
  qed
  from a b c d show ?thesis
    by blast
qed

lemma fromtimestamp_2021: "fromtimestamp utc_env 1609459200000 = Inr 1609459200"
  by code_simp

lemma strftime_datetime_2021: "strftime_datetime 1609459200 = ''2021-01-01 00:00:00''"
  by code_simp

lemma fromtimestamp_2024: "fromtimestamp utc_env 1709210096000 = Inr 1709210096"
  by code_simp

lemma strftime_datetime_2024: "strftime_datetime 1709210096 = ''2024-02-29 12:34:56''"
  by code_simp

lemma title_comment: "title ''comment'' = ''Comment''"
  by code_simp

lemma date_2021: "is_date_of_day (2021, 1, 1) (local_time utc_env (1609459200000 div 1000) div 86400)"
  by (simp add: is_date_of_day_def local_time_def utc_env_def days_in_month_def
      days_before_year_def days_before_month_def)

lemma date_2024: "is_date_of_day (2024, 2, 29) (local_time utc_env (1709210096000 div 1000) div 86400)"
  by (simp add: is_date_of_day_def local_time_def utc_env_def days_in_month_def
      days_before_year_def days_before_month_def is_leap_def)

theorem format_note_to_file_spec_witness:
  "format_note_to_file utc_env
     (Note (Some ''test_id'') (Some [''Reviewer ABC'']) (Some 1609459200000) None
        (Some [(''comment'', PDict [(''value'', PStr ''Test comment'')])]) None) []
   = Inr (''## Comment by Reviewer ABC\<newline>**Date:** 2021-01-01 00:00:00\<newline>\<newline>**Comment:**\<newline>\<newline>Test comment\<newline>\<newline>---\<newline>'',
          ''20210101_Reviewer_ABC.md'')
   \<and> format_note_to_file utc_env
     (Note (Some ''r2'') (Some [''Reviewer A/B'', ''Area Chair'']) (Some 1709210096000) None
        None None) []
   = Inr (''## Comment by Reviewer A/B, Area Chair\<newline>**Date:** 2024-02-29 12:34:56\<newline>\<newline>---\<newline>'',
          ''20240229_Reviewer_A_B,_Area_Chair.md'')"
proof -
  let ?n1 = "Note (Some ''test_id'') (Some [''Reviewer ABC'']) (Some 1609459200000) None
        (Some [(''comment'', PDict [(''value'', PStr ''Test comment'')])]) None"
  let ?md1 = "''## Comment by Reviewer ABC\<newline>**Date:** 2021-01-01 00:00:00\<newline>\<newline>**Comment:**\<newline>\<newline>Test comment\<newline>\<newline>---\<newline>''"
  let ?n2 = "Note (Some ''r2'') (Some [''Reviewer A/B'', ''Area Chair'']) (Some 1709210096000)
        None None None"
  let ?md2 = "''## Comment by Reviewer A/B, Area Chair\<newline>**Date:** 2024-02-29 12:34:56\<newline>\<newline>---\<newline>''"
  have md1: "format_note utc_env ?n1 True 0 = Inr ?md1"
    by (simp add: note_lines_def date_str_def fromtimestamp_2021 strftime_datetime_2021
        content_lines_def title_lines_def extract_value_def dict_get_def unescape_def
        title_comment signatures_str_def indent_of_def join_nl_def NL_def)
  have md2: "format_note utc_env ?n2 True 0 = Inr ?md2"
    by (simp add: note_lines_def date_str_def fromtimestamp_2024 strftime_datetime_2024
        content_lines_def signatures_str_def indent_of_def join_nl_def NL_def)
  have dg: "digits4 2024 = ''2024''" "digits2 2 = ''02''" "digits2 29 = ''29''"
    by code_simp+
  have 1: "format_note_to_file utc_env ?n1 [] = Inr (?md1, ''20210101_Reviewer_ABC.md'')"
    using format_note_to_file_spec
      [where env = utc_env and n = ?n1 and markdown = ?md1 and cd = 1609459200000
         and filename = "[]"]
      md1 date_2021
    by simp
  have 2: "format_note_to_file utc_env ?n2 []
           = Inr (?md2, ''20240229_Reviewer_A_B,_Area_Chair.md'')"
    using format_note_to_file_spec
      [where env = utc_env and n = ?n2 and markdown = ?md2 and cd = 1709210096000
         and y = 2024 and m = 2 and d = 29 and filename = "[]"]
      md2 date_2024 dg
    by (simp add: spec_author_def spec_safe_def)
  from 1 2 show ?thesis
    by blast
qed

section \<open>The whole thread does not read the inline reply summary\<close>

lemma date_str_without_details: "date_str env (without_details n) = date_str env n"
  by (simp add: date_str_def without_details_def)

lemma content_lines_without_details:
  "content_lines env (without_details n) level = content_lines env n level"
  by (simp add: content_lines_def without_details_def)

lemma signatures_str_without_details: "signatures_str (without_details n) = signatures_str n"
  by (simp add: signatures_str_def without_details_def)

lemma note_lines_without_details:
  "note_lines env (without_details n) level = note_lines env n level"
  by (simp add: note_lines_def date_str_without_details content_lines_without_details
      signatures_str_without_details cong: sum.case_cong)

lemma format_note_no_replies:
  "format_note env n False level =
     (case note_lines env n level of
        Inl e \<Rightarrow> Inl e
      | Inr ls \<Rightarrow> Inr (join_nl (ls @ [indent_of level @ ''---'', []])))"
  by (cases n) (auto split: sum.splits option.splits)

lemma format_note_without_details:
  "format_note env (without_details n) False level = format_note env n False level"
  by (simp add: format_note_no_replies note_lines_without_details)

lemma insort_key_map:
  "insort_key f (g x) (map g xs) = map g (insort_key (\<lambda>y. f (g y)) x xs)"
  by (induction xs) auto

lemma sort_key_map:
  "sort_key f (map g xs) = map g (sort_key (\<lambda>y. f (g y)) xs)"
  by (induction xs) (auto simp: insort_key_map)

lemma cdate_key_without_details: "cdate_key (without_details n) = cdate_key n"
  by (simp add: cdate_key_def without_details_def)

lemma sort_without_details:
  "sort_key cdate_key (map without_details ns) = map without_details (sort_key cdate_key ns)"
  by (simp add: sort_key_map cdate_key_without_details)

lemma filter_replyto_without_details:
  "filter (\<lambda>n. replyto n = Some k) (map without_details ns)
   = map without_details (filter (\<lambda>n. replyto n = Some k) ns)"
  by (induction ns) (auto simp: without_details_def)

lemma children_get_without_details:
  "children_get (build_children_map (map without_details ns)) i
   = map without_details (children_get (build_children_map ns) i)"
proof (cases i)
  case None
  then show ?thesis by (simp add: children_get_def)
next
  case (Some k)
  then show ?thesis
    by (simp add: children_get_build filter_replyto_without_details sort_without_details)
qed

lemma find_map_without_details:
  "find (\<lambda>n. \<not> has_replyto n) (map without_details ns)
   = map_option without_details (find (\<lambda>n. \<not> has_replyto n) ns)"
  by (induction ns) (auto simp: has_replyto_def without_details_def)

lemma format_note_recursive_without_details:
  assumes cm: "\<And>i. children_get cm' i = map without_details (children_get cm i)"
  shows "format_note_recursive frames env cm' (without_details n) level
         = format_note_recursive frames env cm n level"
proof (induction frames arbitrary: n level)
  case 0
  show ?case by simp
next
  case (Suc frames)
  have id: "note_id (without_details n) = note_id n"
    by (simp add: without_details_def)
  have "(\<lambda>reply. format_note_recursive frames env cm' reply (level + 1)) \<circ> without_details
        = (\<lambda>reply. format_note_recursive frames env cm reply (level + 1))"
    by (simp add: fun_eq_iff Suc.IH)
  then show ?case
    by (simp add: note_lines_without_details id cm Let_def cong: sum.case_cong)
qed

lemma format_all_notes_without_details:
  "format_all_notes frames env (map without_details ns) submission_title
   = format_all_notes frames env ns submission_title"
proof -
  let ?s = "sort_key cdate_key ns"
  have main: "main_submission (map without_details ?s)
              = map_option without_details (main_submission ?s)"
    by (simp add: main_submission_def find_map_without_details)
  have rec: "(\<lambda>n. format_note_recursive frames env
                     (build_children_map (map without_details ?s)) n 0) \<circ> without_details
             = (\<lambda>n. format_note_recursive frames env (build_children_map ?s) n 0)"
    by (simp add: fun_eq_iff format_note_recursive_without_details
        children_get_without_details)
  have id: "note_id (without_details m) = note_id m" for m
    by (simp add: without_details_def)
  show ?thesis
  proof (cases "main_submission ?s")
    case None
    then show ?thesis
      by (simp add: format_all_notes_def sort_without_details main Let_def)
  next
    case (Some m)
    then show ?thesis
      by (simp add: format_all_notes_def sort_without_details main Let_def
          format_note_without_details children_get_without_details id rec
          cong: sum.case_cong)
  qed
qed

text \<open>
  C4. \<^verbatim>\<open>format_all_notes\<close> does not depend on any note's inline reply summary: two
  note lists that agree once every note's \<^verbatim>\<open>details\<close> is removed render to the same
  text (or raise the same exception).
\<close>

theorem format_all_notes_ignores_details:
  assumes "map without_details ns = map without_details ns'"
  shows "format_all_notes frames env ns submission_title
         = format_all_notes frames env ns' submission_title"
proof -
  have "format_all_notes frames env ns submission_title
        = format_all_notes frames env (map without_details ns) submission_title"
    by (simp add: format_all_notes_without_details)
  also have "\<dots> = format_all_notes frames env (map without_details ns') submission_title"
    by (simp add: assms)
  also have "\<dots> = format_all_notes frames env ns' submission_title"
    by (simp add: format_all_notes_without_details)
  finally show ?thesis .
qed

theorem format_all_notes_ignores_details_witness:
  "format_all_notes 1000 utc_env
     [Note (Some ''S'') (Some [''Authors'']) None None None
        (Some [Note (Some ''C1'') None (Some 100) (Some ''S'') None None]),
      Note (Some ''C1'') None (Some 100) (Some ''S'') None None] ''OpenReview Comments''
   = format_all_notes 1000 utc_env
     [Note (Some ''S'') (Some [''Authors'']) None None None None,
      Note (Some ''C1'') None (Some 100) (Some ''S'') None (Some [])] ''OpenReview Comments''"
  by (rule format_all_notes_ignores_details) (simp add: without_details_def)

end
